theory Spec2Isabelle
  imports Main
begin

section \<open>Session run hooks\<close>

text \<open>
  The module defines four classes: \<open>SessionRunHook\<close> (four callbacks with empty bodies),
  the named tuples \<open>SessionRunArgs\<close> and \<open>SessionRunValues\<close>, and the mutable
  \<open>SessionRunContext\<close>. Methods that may assign to an attribute of \<open>self\<close> are
  modelled as functions from the object to the returned value paired with the object
  after the call. Objects that are shared by reference live in a store, and the two
  methods that touch the stop flag are given a second time as operations on that store.
\<close>

subsection \<open>Python values\<close>

text \<open>
  The values that travel through the tuples: \<open>None\<close>, integers, strings, opaque objects
  known only by identity (tensors, operations, protos, sessions), lists and dictionaries,
  nested without bound. A dictionary is an association list with arbitrary keys, so that
  shapes the execution engine would reject are values too.
\<close>

datatype pyval =
    PyNone
  | PyInt int
  | PyStr string
  | PyObj nat
  | PyList "pyval list"
  | PyDict "(pyval \<times> pyval) list"

datatype error = TypeError

subsection \<open>SessionRunContext\<close>

text \<open>
  \<^verbatim>\<open>
  def __init__(self, original_args, session):
    self._original_args = original_args
    self._session = session
    self._stop_requested = False
  \<close>
  The three private attributes are the fields; Python puts no type on the first two, so
  they are type parameters.
\<close>

record ('a, 's) SessionRunContext =
  priv_original_args :: 'a
  priv_session :: 's
  priv_stop_requested :: bool

definition SessionRunContext_init :: "'a \<Rightarrow> 's \<Rightarrow> ('a, 's) SessionRunContext" where
  "SessionRunContext_init original_args_arg session_arg =
     \<lparr>priv_original_args = original_args_arg,
      priv_session = session_arg,
      priv_stop_requested = False\<rparr>"

text \<open>The three properties return an attribute; \<open>request_stop\<close> assigns one and returns nothing.\<close>

definition original_args ::
  "('a, 's) SessionRunContext \<Rightarrow> 'a \<times> ('a, 's) SessionRunContext" where
  "original_args self = (priv_original_args self, self)"

definition session ::
  "('a, 's) SessionRunContext \<Rightarrow> 's \<times> ('a, 's) SessionRunContext" where
  "session self = (priv_session self, self)"

definition stop_requested ::
  "('a, 's) SessionRunContext \<Rightarrow> bool \<times> ('a, 's) SessionRunContext" where
  "stop_requested self = (priv_stop_requested self, self)"

definition request_stop ::
  "('a, 's) SessionRunContext \<Rightarrow> unit \<times> ('a, 's) SessionRunContext" where
  "request_stop self = ((), self\<lparr>priv_stop_requested := True\<rparr>)"

text \<open>
  The operations a holder of a context can invoke on it, and the context that a sequence
  of them leaves behind.
\<close>

datatype ctx_call =
    Get_original_args
  | Get_session
  | Get_stop_requested
  | Do_request_stop

fun after_call :: "ctx_call \<Rightarrow> ('a, 's) SessionRunContext \<Rightarrow> ('a, 's) SessionRunContext" where
  "after_call Get_original_args self = snd (original_args self)"
| "after_call Get_session self = snd (session self)"
| "after_call Get_stop_requested self = snd (stop_requested self)"
| "after_call Do_request_stop self = snd (request_stop self)"

fun after_calls ::
  "ctx_call list \<Rightarrow> ('a, 's) SessionRunContext \<Rightarrow> ('a, 's) SessionRunContext" where
  "after_calls [] self = self"
| "after_calls (c # cs) self = after_calls cs (after_call c self)"

subsection \<open>The store of contexts\<close>

text \<open>
  A context is handed to every hook by reference, so two holders of the same reference see
  each other's \<open>request_stop()\<close>. The store is the list of the contexts constructed so
  far; a reference is an index into it. Constructing a context appends it.
\<close>

type_synonym ('a, 's) store = "('a, 's) SessionRunContext list"

definition new_context :: "'a \<Rightarrow> 's \<Rightarrow> ('a, 's) store \<Rightarrow> nat \<times> ('a, 's) store" where
  "new_context original_args_arg session_arg st =
     (length st, st @ [SessionRunContext_init original_args_arg session_arg])"

text \<open>
  The two methods that touch the flag, as operations on the whole store with \<open>self\<close> a
  reference:
  \<^verbatim>\<open>
  def stop_requested(self):
    return self._stop_requested

  def request_stop(self):
    self._stop_requested = True
  \<close>
  The body of \<open>request_stop\<close> is given the store and decides where it writes: at the
  attribute \<open>_stop_requested\<close> of the object that \<open>self\<close> refers to, and nowhere else.
  Both are \<open>None\<close> for an index that no construction returned, which no caller can hold.
\<close>

definition stop_requested_ref ::
  "nat \<Rightarrow> ('a, 's) store \<Rightarrow> (bool \<times> ('a, 's) store) option" where
  "stop_requested_ref self st =
     (if self < length st then Some (priv_stop_requested (st ! self), st) else None)"

definition request_stop_ref ::
  "nat \<Rightarrow> ('a, 's) store \<Rightarrow> (unit \<times> ('a, 's) store) option" where
  "request_stop_ref self st =
     (if self < length st
      then Some ((), st[self := (st ! self)\<lparr>priv_stop_requested := True\<rparr>])
      else None)"

text \<open>
  \<open>invoke\<close> runs a method given on the object alone on the object behind a reference and
  writes the object back; the two operations above are the methods \<open>stop_requested\<close> and
  \<open>request_stop\<close> invoked this way.
\<close>

definition invoke ::
  "nat \<Rightarrow> (('a, 's) SessionRunContext \<Rightarrow> 'r \<times> ('a, 's) SessionRunContext) \<Rightarrow>
   ('a, 's) store \<Rightarrow> ('r \<times> ('a, 's) store) option" where
  "invoke ref method st =
     (if ref < length st
      then Some (fst (method (st ! ref)), st[ref := snd (method (st ! ref))])
      else None)"

subsection \<open>Calling a constructor\<close>

text \<open>
  A signature lists the parameters after the class, each with its default if it has one.
  A call supplies positional arguments and keyword arguments. Binding follows Python:
  positional arguments fill the parameters from the left; a keyword may not name a
  parameter that a positional argument filled; a parameter left over takes its keyword,
  else its default, else the call raises \<open>TypeError\<close>; a surplus positional argument, an
  unknown keyword or a repeated keyword raises \<open>TypeError\<close>. The result is the list of
  the parameters' values in the order of the signature.
\<close>

type_synonym params = "(string \<times> pyval option) list"

fun bind_args :: "params \<Rightarrow> pyval list \<Rightarrow> (string \<times> pyval) list \<Rightarrow> error + pyval list" where
  "bind_args [] [] kws = (if kws = [] then Inr [] else Inl TypeError)"
| "bind_args [] (a # pos) kws = Inl TypeError"
| "bind_args ((n, dflt) # ps) (a # pos) kws =
     (if n \<in> fst ` set kws then Inl TypeError
      else (case bind_args ps pos kws of
              Inl e \<Rightarrow> Inl e
            | Inr vs \<Rightarrow> Inr (a # vs)))"
| "bind_args ((n, dflt) # ps) [] kws =
     (case map_of kws n of
        Some v \<Rightarrow>
          (case bind_args ps [] (filter (\<lambda>kw. fst kw \<noteq> n) kws) of
             Inl e \<Rightarrow> Inl e
           | Inr vs \<Rightarrow> Inr (v # vs))
      | None \<Rightarrow>
          (case dflt of
             None \<Rightarrow> Inl TypeError
           | Some v \<Rightarrow>
               (case bind_args ps [] kws of
                  Inl e \<Rightarrow> Inl e
                | Inr vs \<Rightarrow> Inr (v # vs))))"

definition call_args :: "params \<Rightarrow> pyval list \<Rightarrow> (string \<times> pyval) list \<Rightarrow> error + pyval list" where
  "call_args ps pos kws =
     (if distinct (map fst kws) then bind_args ps pos kws else Inl TypeError)"

subsection \<open>SessionRunArgs\<close>

text \<open>
  \<^verbatim>\<open>
  class SessionRunArgs(
      collections.namedtuple("SessionRunArgs",
                             ["fetches", "feed_dict", "options"])):
    def __new__(cls, fetches, feed_dict=None, options=None):
      return super(SessionRunArgs, cls).__new__(cls, fetches, feed_dict, options)
  \<close>
  The named tuple is a record of its three fields. Its own constructor takes the three
  fields with no default; the subclass's \<open>__new__\<close> binds its arguments with the two
  defaults and passes all three on, positionally.
\<close>

record SessionRunArgs =
  fetches :: pyval
  feed_dict :: pyval
  options :: pyval

definition SessionRunArgs_fields :: params where
  "SessionRunArgs_fields = [(''fetches'', None), (''feed_dict'', None), (''options'', None)]"

definition SessionRunArgs_namedtuple_new ::
  "pyval list \<Rightarrow> (string \<times> pyval) list \<Rightarrow> error + SessionRunArgs" where
  "SessionRunArgs_namedtuple_new pos kws =
     (case call_args SessionRunArgs_fields pos kws of
        Inl e \<Rightarrow> Inl e
      | Inr vs \<Rightarrow>
          (case vs of
             [f, d, p] \<Rightarrow> Inr \<lparr>fetches = f, feed_dict = d, options = p\<rparr>
           | _ \<Rightarrow> Inl TypeError))"

definition SessionRunArgs_params :: params where
  "SessionRunArgs_params =
     [(''fetches'', None), (''feed_dict'', Some PyNone), (''options'', Some PyNone)]"

definition SessionRunArgs_new ::
  "pyval list \<Rightarrow> (string \<times> pyval) list \<Rightarrow> error + SessionRunArgs" where
  "SessionRunArgs_new pos kws =
     (case call_args SessionRunArgs_params pos kws of
        Inl e \<Rightarrow> Inl e
      | Inr vs \<Rightarrow> SessionRunArgs_namedtuple_new vs [])"

subsection \<open>SessionRunValues\<close>

text \<open>
  \<^verbatim>\<open>
  class SessionRunValues(
      collections.namedtuple("SessionRunValues",
                             ["results", "options", "run_metadata"])):
  \<close>
  The class body is a docstring only, so the constructor is the named tuple's. The field
  \<open>options\<close> is named \<open>values_options\<close> here, to keep it apart from the field of
  \<open>SessionRunArgs\<close>.
\<close>

record SessionRunValues =
  results :: pyval
  values_options :: pyval
  run_metadata :: pyval

definition SessionRunValues_fields :: params where
  "SessionRunValues_fields = [(''results'', None), (''options'', None), (''run_metadata'', None)]"

definition SessionRunValues_new ::
  "pyval list \<Rightarrow> (string \<times> pyval) list \<Rightarrow> error + SessionRunValues" where
  "SessionRunValues_new pos kws =
     (case call_args SessionRunValues_fields pos kws of
        Inl e \<Rightarrow> Inl e
      | Inr vs \<Rightarrow>
          (case vs of
             [r, p, m] \<Rightarrow> Inr \<lparr>results = r, values_options = p, run_metadata = m\<rparr>
           | _ \<Rightarrow> Inl TypeError))"

subsection \<open>Equality of named tuples\<close>

text \<open>
  Neither class defines \<open>__eq__\<close>, so \<open>==\<close> is the tuple's: items are compared pairwise
  from the left, and two tuples whose common prefix agrees are equal when their lengths
  are. How two items compare is up to the items (identity first, then their own
  \<open>__eq__\<close>); it is the parameter \<open>item_eq\<close>.
\<close>

fun tuple_eq :: "(pyval \<Rightarrow> pyval \<Rightarrow> bool) \<Rightarrow> pyval list \<Rightarrow> pyval list \<Rightarrow> bool" where
  "tuple_eq item_eq [] [] = True"
| "tuple_eq item_eq (x # xs) (y # ys) = (item_eq x y \<and> tuple_eq item_eq xs ys)"
| "tuple_eq item_eq [] (y # ys) = False"
| "tuple_eq item_eq (x # xs) [] = False"

definition SessionRunArgs_items :: "SessionRunArgs \<Rightarrow> pyval list" where
  "SessionRunArgs_items t = [fetches t, feed_dict t, options t]"

definition SessionRunValues_items :: "SessionRunValues \<Rightarrow> pyval list" where
  "SessionRunValues_items t = [results t, values_options t, run_metadata t]"

definition SessionRunArgs_eq ::
  "(pyval \<Rightarrow> pyval \<Rightarrow> bool) \<Rightarrow> SessionRunArgs \<Rightarrow> SessionRunArgs \<Rightarrow> bool" where
  "SessionRunArgs_eq item_eq t u = tuple_eq item_eq (SessionRunArgs_items t) (SessionRunArgs_items u)"

definition SessionRunValues_eq ::
  "(pyval \<Rightarrow> pyval \<Rightarrow> bool) \<Rightarrow> SessionRunValues \<Rightarrow> SessionRunValues \<Rightarrow> bool" where
  "SessionRunValues_eq item_eq t u =
     tuple_eq item_eq (SessionRunValues_items t) (SessionRunValues_items u)"

subsection \<open>SessionRunHook\<close>

text \<open>
  The class declares no attribute and no constructor: an instance starts with an empty
  attribute dictionary, which subclasses fill. Each callback receives the hook, its
  arguments and the store of contexts, and returns its value with the hook and the store
  after the call. \<open>before_run\<close> returns \<open>None\<close> or a \<open>SessionRunArgs\<close>; the other
  three have the body \<open>pass\<close>. The callbacks \<open>begin\<close> and \<open>end\<close> are named
  \<open>hook_begin\<close> and \<open>hook_end\<close>.
\<close>

record SessionRunHook =
  hook_attrs :: "(string \<times> pyval) list"

definition SessionRunHook_init :: SessionRunHook where
  "SessionRunHook_init = \<lparr>hook_attrs = []\<rparr>"

definition hook_begin ::
  "SessionRunHook \<Rightarrow> ('a, 's) store \<Rightarrow> unit \<times> SessionRunHook \<times> ('a, 's) store" where
  "hook_begin self st = ((), self, st)"

definition before_run ::
  "SessionRunHook \<Rightarrow> 'r \<Rightarrow> ('a, 's) store \<Rightarrow>
   SessionRunArgs option \<times> SessionRunHook \<times> ('a, 's) store" where
  "before_run self run_context st = (None, self, st)"

definition after_run ::
  "SessionRunHook \<Rightarrow> 'r \<Rightarrow> 'v \<Rightarrow> ('a, 's) store \<Rightarrow> unit \<times> SessionRunHook \<times> ('a, 's) store" where
  "after_run self run_context run_values st = ((), self, st)"

definition hook_end ::
  "SessionRunHook \<Rightarrow> 'e \<Rightarrow> ('a, 's) store \<Rightarrow> unit \<times> SessionRunHook \<times> ('a, 's) store" where
  "hook_end self session_arg st = ((), self, st)"

section \<open>Properties\<close>

subsection \<open>Argument binding\<close>

text \<open>
  Whether a call binds depends on how many positional arguments there are and on the names
  of the keywords, never on the values passed.
\<close>

lemma map_fst_filter_names:
  "map fst kws = map fst kws' \<Longrightarrow>
   map fst (filter (\<lambda>kw. fst kw \<noteq> n) kws) = map fst (filter (\<lambda>kw. fst kw \<noteq> n) kws')"
proof (induction kws arbitrary: kws')
  case Nil
  then show ?case by simp
next
  case (Cons kw kws)
  then obtain kw' kws'' where k: "kws' = kw' # kws''" by (cases kws') auto
  with Cons.prems have "fst kw = fst kw'" and "map fst kws = map fst kws''" by simp_all
  then show ?case using Cons.IH [of kws''] k by simp
qed

lemma names_same_set:
  "map fst kws = map fst kws' \<Longrightarrow> fst ` set kws = fst ` set kws'"
  by (metis set_map)

lemma isl_case_cons:
  "isl (case r of Inl e \<Rightarrow> Inl e | Inr vs \<Rightarrow> Inr (v # vs)) = isl r"
  by (cases r) simp_all

lemma bind_args_shape:
  "length pos = length pos' \<Longrightarrow> map fst kws = map fst kws' \<Longrightarrow>
   isl (bind_args ps pos kws) = isl (bind_args ps pos' kws')"
proof (induction ps pos kws arbitrary: pos' kws' rule: bind_args.induct)
  case (1 kws)
  then show ?case by auto
next
  case (2 a pos kws)
  then show ?case by (cases pos') simp_all
next
  case (3 n dflt ps a pos kws)
  then obtain a' pos'' where p: "pos' = a' # pos''" by (cases pos') auto
  with 3 have len: "length pos = length pos''" by simp
  have names: "fst ` set kws = fst ` set kws'" using "3.prems"(2) by (rule names_same_set)
  show ?case
  proof (cases "n \<in> fst ` set kws")
    case True
    then show ?thesis using names p by simp
  next
    case False
    then have "isl (bind_args ps pos kws) = isl (bind_args ps pos'' kws')"
      using "3.IH" [OF False len "3.prems"(2)] by simp
    then show ?thesis using False names p by (simp add: isl_case_cons)
  qed
next
  case (4 n dflt ps kws)
  then have p: "pos' = []" by simp
  have names: "fst ` set kws = fst ` set kws'" using "4.prems"(2) by (rule names_same_set)
  show ?case
  proof (cases "map_of kws n")
    case None
    then have none': "map_of kws' n = None" using names by (simp add: map_of_eq_None_iff)
    show ?thesis
    proof (cases dflt)
      case dn: None
      then show ?thesis using None none' p by simp
    next
      case (Some v)
      have "isl (bind_args ps [] kws) = isl (bind_args ps [] kws')"
        using "4.IH"(1) [OF None Some _ "4.prems"(2)] by simp
      then show ?thesis using None none' p Some by (simp add: isl_case_cons)
    qed
  next
    case (Some v)
    then have "n \<in> fst ` set kws" by (metis map_of_eq_None_iff option.distinct(1))
    then have "map_of kws' n \<noteq> None" using names by (simp add: map_of_eq_None_iff)
    then obtain v' where some': "map_of kws' n = Some v'" by auto
    have "isl (bind_args ps [] (filter (\<lambda>kw. fst kw \<noteq> n) kws))
        = isl (bind_args ps [] (filter (\<lambda>kw. fst kw \<noteq> n) kws'))"
      using "4.IH"(2) [OF Some _ map_fst_filter_names [OF "4.prems"(2)]] by simp
    then show ?thesis using Some some' p by (simp add: isl_case_cons)
  qed
qed

lemma call_args_shape:
  "length pos = length pos' \<Longrightarrow> map fst kws = map fst kws' \<Longrightarrow>
   isl (call_args ps pos kws) = isl (call_args ps pos' kws')"
  using bind_args_shape [of pos pos' kws kws' ps] by (simp add: call_args_def)

lemma bind_args_length:
  "bind_args ps pos kws = Inr vs \<Longrightarrow> length vs = length ps"
  by (induction ps pos kws arbitrary: vs rule: bind_args.induct)
     (auto split: if_splits sum.splits option.splits)

subsection \<open>The stop flag\<close>

lemma after_call_keeps_stop:
  "priv_stop_requested self \<Longrightarrow> priv_stop_requested (after_call c self)"
  by (cases c) (simp_all add: original_args_def session_def stop_requested_def request_stop_def)

lemma after_calls_keeps_stop:
  "priv_stop_requested self \<Longrightarrow> priv_stop_requested (after_calls cs self)"
proof (induction cs arbitrary: self)
  case Nil
  then show ?case by simp
next
  case (Cons c cs)
  from Cons.prems have "priv_stop_requested (after_call c self)"
    by (rule after_call_keeps_stop)
  then show ?case using Cons.IH by simp
qed

text \<open>
  C1. A freshly constructed context reads \<open>stop_requested\<close> as false; after
  \<open>request_stop()\<close> on any context it reads true; and once it reads true it reads true
  after every further sequence of operations of the context, \<open>request_stop()\<close> included.
\<close>

theorem stop_flag_monotonic:
  "fst (stop_requested (SessionRunContext_init R S)) = False
   \<and> fst (stop_requested (snd (request_stop self))) = True
   \<and> fst (stop_requested (snd (request_stop (snd (request_stop self))))) = True
   \<and> (fst (stop_requested self) \<longrightarrow> fst (stop_requested (after_calls cs self)))"
proof -
  have "fst (stop_requested self) \<longrightarrow> fst (stop_requested (after_calls cs self))"
    using after_calls_keeps_stop [of self cs] by (simp add: stop_requested_def)
  then show ?thesis
    by (simp add: stop_requested_def request_stop_def SessionRunContext_init_def)
qed

theorem stop_flag_monotonic_witness:
  "fst (stop_requested (snd (request_stop (SessionRunContext_init (PyStr ''step'') (PyObj 0)))))
   \<and> fst (stop_requested
        (after_calls [Get_stop_requested, Do_request_stop, Get_session, Get_original_args]
           (snd (request_stop (SessionRunContext_init (PyStr ''step'') (PyObj 0))))))"
  using stop_flag_monotonic [of "PyStr ''step''" "PyObj 0"
      "snd (request_stop (SessionRunContext_init (PyStr ''step'') (PyObj 0)))"
      "[Get_stop_requested, Do_request_stop, Get_session, Get_original_args]"]
  by (simp add: stop_requested_def request_stop_def SessionRunContext_init_def)

subsection \<open>Constructing the named tuples\<close>

lemmas args_defs = SessionRunArgs_new_def call_args_def SessionRunArgs_params_def
  SessionRunArgs_namedtuple_new_def SessionRunArgs_fields_def

lemmas values_defs = SessionRunValues_new_def call_args_def SessionRunValues_fields_def

lemma filter_removes_one:
  "distinct (map fst kws) \<Longrightarrow> map_of kws n = Some v \<Longrightarrow>
   Suc (length (filter (\<lambda>kw. fst kw \<noteq> n) kws)) = length kws"
proof (induction kws)
  case Nil
  then show ?case by simp
next
  case (Cons kw kws)
  show ?case
  proof (cases "fst kw = n")
    case True
    with Cons.prems have "n \<notin> fst ` set kws" by auto
    then have "filter (\<lambda>kw. fst kw \<noteq> n) kws = kws"
      by (auto simp: filter_id_conv)
    with True show ?thesis by simp
  next
    case False
    with Cons.prems have "map_of kws n = Some v" by (cases kw) (auto split: if_splits)
    with Cons.IH Cons.prems False show ?thesis by simp
  qed
qed

lemma distinct_names_filter:
  "distinct (map fst kws) \<Longrightarrow> distinct (map fst (filter P kws))"
  by (simp add: distinct_map_filter)

lemma bind_args_no_defaults:
  "\<forall>q \<in> set ps. snd q = None \<Longrightarrow> distinct (map fst kws) \<Longrightarrow>
   bind_args ps pos kws = Inr vs \<Longrightarrow> length pos + length kws = length ps"
proof (induction ps pos kws arbitrary: vs rule: bind_args.induct)
  case (1 kws)
  then show ?case by (simp split: if_splits)
next
  case (2 a pos kws)
  then show ?case by simp
next
  case (3 n dflt ps a pos kws)
  from "3.prems"(3) have notin: "n \<notin> fst ` set kws" by (simp split: if_splits)
  with "3.prems"(3) obtain ws where "bind_args ps pos kws = Inr ws"
    by (auto split: sum.splits)
  with "3.IH" [OF notin _ "3.prems"(2)] "3.prems"(1) show ?case by simp
next
  case (4 n dflt ps kws)
  from "4.prems"(1) have d: "dflt = None" by simp
  with "4.prems"(3) obtain v where v: "map_of kws n = Some v"
    by (cases "map_of kws n") auto
  with "4.prems"(3) obtain ws where
    ws: "bind_args ps [] (filter (\<lambda>kw. fst kw \<noteq> n) kws) = Inr ws"
    by (auto split: sum.splits)
  have "length ([]::pyval list) + length (filter (\<lambda>kw. fst kw \<noteq> n) kws) = length ps"
    using "4.IH"(2) [OF v _ distinct_names_filter [OF "4.prems"(2)] ws] "4.prems"(1) by simp
  with filter_removes_one [OF "4.prems"(2) v] show ?case by simp
qed

lemma SessionRunArgs_new_isl:
  "isl (SessionRunArgs_new pos kws) = isl (call_args SessionRunArgs_params pos kws)"
proof (cases "call_args SessionRunArgs_params pos kws")
  case (Inl e)
  then show ?thesis by (simp add: SessionRunArgs_new_def)
next
  case (Inr vs)
  then have "length vs = 3"
    using bind_args_length [of SessionRunArgs_params pos kws vs]
    by (simp add: call_args_def SessionRunArgs_params_def split: if_splits)
  then obtain f d p where "vs = [f, d, p]"
    by (auto simp: length_Suc_conv numeral_3_eq_3)
  with Inr show ?thesis
    by (simp add: SessionRunArgs_new_def SessionRunArgs_namedtuple_new_def
        SessionRunArgs_fields_def call_args_def)
qed

lemma SessionRunArgs_new_three:
  "SessionRunArgs_new [f, d, p] [] = Inr \<lparr>fetches = f, feed_dict = d, options = p\<rparr>"
  by (simp add: args_defs)

lemma SessionRunValues_new_three:
  "SessionRunValues_new [r, p, m] [] = Inr \<lparr>results = r, values_options = p, run_metadata = m\<rparr>"
  by (simp add: values_defs)

text \<open>
  C3. \<open>SessionRunArgs(f)\<close> has \<open>feed_dict\<close> and \<open>options\<close> equal to \<open>None\<close>, and
  \<open>SessionRunArgs(f, d, p)\<close> reads back \<open>f\<close>, \<open>d\<close> and \<open>p\<close> from its three fields,
  whether the arguments are passed by position or by keyword.
\<close>

theorem SessionRunArgs_defaults_roundtrip:
  "SessionRunArgs_new [f] [] = Inr \<lparr>fetches = f, feed_dict = PyNone, options = PyNone\<rparr>
   \<and> (\<exists>t. SessionRunArgs_new [f, d, p] [] = Inr t
          \<and> fetches t = f \<and> feed_dict t = d \<and> options t = p)
   \<and> (\<exists>t. SessionRunArgs_new [] [(''fetches'', f), (''feed_dict'', d), (''options'', p)] = Inr t
          \<and> fetches t = f \<and> feed_dict t = d \<and> options t = p)"
  by (simp add: args_defs)

text \<open>
  C4. \<open>SessionRunValues(r, p, m)\<close> reads back \<open>r\<close>, \<open>p\<close> and \<open>m\<close>; with fewer than
  three arguments the construction raises \<open>TypeError\<close>, and every construction
  that succeeds was given exactly three arguments, so no field has a default.
\<close>

theorem SessionRunValues_all_required:
  "(\<exists>t. SessionRunValues_new [r, p, m] [] = Inr t
        \<and> results t = r \<and> values_options t = p \<and> run_metadata t = m)
   \<and> SessionRunValues_new [] [] = Inl TypeError
   \<and> SessionRunValues_new [r] [] = Inl TypeError
   \<and> SessionRunValues_new [r, p] [] = Inl TypeError
   \<and> (SessionRunValues_new pos kws = Inr t \<longrightarrow> length pos + length kws = 3)"
proof -
  have "length pos + length kws = 3" if h: "SessionRunValues_new pos kws = Inr t"
  proof -
    from h obtain vs where vs: "call_args SessionRunValues_fields pos kws = Inr vs"
      by (auto simp: SessionRunValues_new_def split: sum.splits)
    then have dist: "distinct (map fst kws)"
      and b: "bind_args SessionRunValues_fields pos kws = Inr vs"
      by (auto simp: call_args_def split: if_splits)
    have "\<forall>q \<in> set SessionRunValues_fields. snd q = None"
      by (simp add: SessionRunValues_fields_def)
    from bind_args_no_defaults [OF this dist b] show ?thesis
      by (simp add: SessionRunValues_fields_def)
  qed
  then show ?thesis by (simp add: values_defs)
qed

theorem SessionRunValues_all_required_witness:
  "SessionRunValues_new [PyList [PyNone, PyStr ''s'']] [(''run_metadata'', PyObj 2), (''options'', PyObj 1)]
     = Inr \<lparr>results = PyList [PyNone, PyStr ''s''], values_options = PyObj 1, run_metadata = PyObj 2\<rparr>
   \<and> length [PyList [PyNone, PyStr ''s'']]
       + length [(''run_metadata'', PyObj 2), (''options'', PyObj 1)] = (3::nat)"
  using SessionRunValues_all_required [of PyNone PyNone PyNone
      "[PyList [PyNone, PyStr ''s'']]" "[(''run_metadata'', PyObj 2), (''options'', PyObj 1)]"
      "\<lparr>results = PyList [PyNone, PyStr ''s''], values_options = PyObj 1, run_metadata = PyObj 2\<rparr>"]
  by (simp add: values_defs)

text \<open>
  C6. Constructing a \<open>SessionRunArgs\<close> from one, two or three values succeeds whatever
  the values are, and whether a call succeeds is decided by the number of positional
  arguments and the keyword names alone: nothing is validated.
\<close>

theorem SessionRunArgs_no_validation:
  "\<not> isl (SessionRunArgs_new [f] [])
   \<and> \<not> isl (SessionRunArgs_new [f, d] [])
   \<and> \<not> isl (SessionRunArgs_new [f, d, p] [])
   \<and> (length pos = length pos' \<longrightarrow> map fst kws = map fst kws' \<longrightarrow>
        isl (SessionRunArgs_new pos kws) = isl (SessionRunArgs_new pos' kws'))"
proof -
  have "isl (SessionRunArgs_new pos kws) = isl (SessionRunArgs_new pos' kws')"
    if "length pos = length pos'" and "map fst kws = map fst kws'"
    using call_args_shape [OF that, of SessionRunArgs_params]
    by (simp add: SessionRunArgs_new_isl)
  then show ?thesis by (simp add: args_defs)
qed

theorem SessionRunArgs_no_validation_witness:
  "length [PyDict [(PyInt 3, PyList [PyNone, PyDict []])]] = length [PyStr ''step'']
   \<and> map fst [(''options'', PyList [])] = map fst [(''options'', PyNone)]
   \<and> \<not> isl (SessionRunArgs_new [PyDict [(PyInt 3, PyList [PyNone, PyDict []])]]
              [(''options'', PyList [])])"
  using SessionRunArgs_no_validation [of PyNone PyNone PyNone
      "[PyDict [(PyInt 3, PyList [PyNone, PyDict []])]]" "[PyStr ''step'']"
      "[(''options'', PyList [])]" "[(''options'', PyNone)]"]
  by (simp add: args_defs)

text \<open>
  C9. Two \<open>SessionRunArgs\<close> are equal exactly when their \<open>fetches\<close>, \<open>feed_dict\<close> and
  \<open>options\<close> are pairwise equal, and two \<open>SessionRunValues\<close> exactly when their
  \<open>results\<close>, \<open>options\<close> and \<open>run_metadata\<close> are; in particular tuples constructed from
  equal components are equal.
\<close>

theorem namedtuple_structural_equality:
  "SessionRunArgs_new [f, d, p] [] = Inr t \<Longrightarrow> SessionRunArgs_new [f', d', p'] [] = Inr u \<Longrightarrow>
   SessionRunValues_new [r, q, m] [] = Inr v \<Longrightarrow> SessionRunValues_new [r', q', m'] [] = Inr w \<Longrightarrow>
   (SessionRunArgs_eq item_eq t u \<longleftrightarrow> item_eq f f' \<and> item_eq d d' \<and> item_eq p p')
   \<and> (SessionRunValues_eq item_eq v w \<longleftrightarrow> item_eq r r' \<and> item_eq q q' \<and> item_eq m m')"
  by (auto simp: SessionRunArgs_new_three SessionRunValues_new_three SessionRunArgs_eq_def
      SessionRunValues_eq_def SessionRunArgs_items_def SessionRunValues_items_def)

theorem namedtuple_structural_equality_witness:
  "SessionRunArgs_eq (=)
     \<lparr>fetches = PyStr ''step'', feed_dict = PyNone, options = PyObj 4\<rparr>
     \<lparr>fetches = PyStr ''step'', feed_dict = PyNone, options = PyObj 4\<rparr>
   \<and> \<not> SessionRunValues_eq (=)
     \<lparr>results = PyInt 1, values_options = PyObj 4, run_metadata = PyObj 5\<rparr>
     \<lparr>results = PyInt 2, values_options = PyObj 4, run_metadata = PyObj 5\<rparr>"
  using namedtuple_structural_equality [OF SessionRunArgs_new_three SessionRunArgs_new_three
      SessionRunValues_new_three SessionRunValues_new_three,
      of "(=)" "PyStr ''step''" PyNone "PyObj 4" "PyStr ''step''" PyNone "PyObj 4"
         "PyInt 1" "PyObj 4" "PyObj 5" "PyInt 2" "PyObj 4" "PyObj 5"]
  by simp

subsection \<open>The context's accessors and frame\<close>

lemmas ctx_defs = original_args_def session_def stop_requested_def request_stop_def
  SessionRunContext_init_def

lemma after_call_keeps_args:
  "priv_original_args (after_call c self) = priv_original_args self
   \<and> priv_session (after_call c self) = priv_session self"
  by (cases c) (simp_all add: ctx_defs)

lemma after_calls_keeps_args:
  "priv_original_args (after_calls cs self) = priv_original_args self
   \<and> priv_session (after_calls cs self) = priv_session self"
  by (induction cs arbitrary: self) (simp_all add: after_call_keeps_args)

lemma after_calls_reads_only:
  "Do_request_stop \<notin> set cs \<Longrightarrow> after_calls cs self = self"
proof (induction cs arbitrary: self)
  case Nil
  then show ?case by simp
next
  case (Cons c cs)
  then have "c \<noteq> Do_request_stop" by auto
  then have "after_call c self = self" by (cases c) (simp_all add: ctx_defs)
  with Cons show ?case by simp
qed

text \<open>
  C2. A context constructed from a request \<open>R\<close> and a session \<open>S\<close> returns \<open>R\<close> from
  \<open>original_args\<close> and \<open>S\<close> from \<open>session\<close>, right after construction and after any
  sequence of operations of the context.
\<close>

theorem accessors_return_constructor_arguments:
  "fst (original_args (SessionRunContext_init R S)) = R
   \<and> fst (session (SessionRunContext_init R S)) = S
   \<and> fst (original_args (after_calls cs (SessionRunContext_init R S))) = R
   \<and> fst (session (after_calls cs (SessionRunContext_init R S))) = S"
  using after_calls_keeps_args [of cs "SessionRunContext_init R S"]
  by (simp add: ctx_defs)

text \<open>
  C7. \<open>request_stop()\<close> returns nothing and leaves \<open>original_args\<close> and \<open>session\<close> as
  they were: the context before and the context after differ in the stop flag at most.
\<close>

theorem request_stop_frame:
  "fst (original_args (snd (request_stop self))) = fst (original_args self)
   \<and> fst (session (snd (request_stop self))) = fst (session self)
   \<and> fst (request_stop self) = ()
   \<and> (snd (request_stop self))\<lparr>priv_stop_requested := b\<rparr> = self\<lparr>priv_stop_requested := b\<rparr>"
  by (simp add: ctx_defs)

lemma stop_requested_ref_invoke:
  "stop_requested_ref self st = invoke self stop_requested st"
  by (simp add: stop_requested_ref_def invoke_def stop_requested_def)

lemma request_stop_ref_invoke:
  "request_stop_ref self st = invoke self request_stop st"
  by (simp add: request_stop_ref_def invoke_def request_stop_def)

text \<open>
  C8. For two distinct contexts \<open>a\<close> and \<open>b\<close> of the store, \<open>request_stop()\<close> on \<open>a\<close>
  sets the flag of \<open>a\<close> and nothing of \<open>b\<close>: \<open>stop_requested\<close> of \<open>a\<close> reads true
  afterwards, \<open>stop_requested\<close> of \<open>b\<close> reads what it read before, and the object behind
  \<open>b\<close> is the one that was there.
\<close>

theorem stop_flag_per_context:
  "a \<noteq> b \<Longrightarrow> stop_requested_ref b st = Some (flag, st0) \<Longrightarrow>
   request_stop_ref a st = Some (u, st') \<Longrightarrow>
   stop_requested_ref b st' = Some (flag, st')
   \<and> st' ! b = st ! b
   \<and> stop_requested_ref a st' = Some (True, st')
   \<and> length st' = length st"
proof -
  assume ne: "a \<noteq> b"
    and rd: "stop_requested_ref b st = Some (flag, st0)"
    and wr: "request_stop_ref a st = Some (u, st')"
  from rd have b: "b < length st" and flag: "flag = priv_stop_requested (st ! b)"
    by (auto simp: stop_requested_ref_def split: if_splits)
  from wr have a: "a < length st"
    and st': "st' = st[a := (st ! a)\<lparr>priv_stop_requested := True\<rparr>]"
    by (auto simp: request_stop_ref_def split: if_splits)
  from st' have len: "length st' = length st" by simp
  from st' ne have same: "st' ! b = st ! b" by simp
  from st' a have set: "priv_stop_requested (st' ! a)" by simp
  from b len same flag have "stop_requested_ref b st' = Some (flag, st')"
    by (simp add: stop_requested_ref_def)
  moreover from a len set have "stop_requested_ref a st' = Some (True, st')"
    by (simp add: stop_requested_ref_def)
  ultimately show ?thesis using same len by simp
qed

theorem stop_flag_per_context_witness:
  "new_context (PyStr ''b'') (PyObj 1) (snd (new_context (PyStr ''a'') (PyObj 1) []))
   = (1, [\<lparr>priv_original_args = PyStr ''a'', priv_session = PyObj 1,
              priv_stop_requested = False\<rparr>,
            \<lparr>priv_original_args = PyStr ''b'', priv_session = PyObj 1,
              priv_stop_requested = False\<rparr>])
   \<and> request_stop_ref 0
        [\<lparr>priv_original_args = PyStr ''a'', priv_session = PyObj 1, priv_stop_requested = False\<rparr>,
         \<lparr>priv_original_args = PyStr ''b'', priv_session = PyObj 1, priv_stop_requested = False\<rparr>]
      = Some ((),
        [\<lparr>priv_original_args = PyStr ''a'', priv_session = PyObj 1, priv_stop_requested = True\<rparr>,
         \<lparr>priv_original_args = PyStr ''b'', priv_session = PyObj 1, priv_stop_requested = False\<rparr>])
   \<and> stop_requested_ref 1
        [\<lparr>priv_original_args = PyStr ''a'', priv_session = PyObj 1, priv_stop_requested = True\<rparr>,
         \<lparr>priv_original_args = PyStr ''b'', priv_session = PyObj 1, priv_stop_requested = False\<rparr>]
      = Some (False,
        [\<lparr>priv_original_args = PyStr ''a'', priv_session = PyObj 1, priv_stop_requested = True\<rparr>,
         \<lparr>priv_original_args = PyStr ''b'', priv_session = PyObj 1, priv_stop_requested = False\<rparr>])
   \<and> stop_requested_ref 0
        [\<lparr>priv_original_args = PyStr ''a'', priv_session = PyObj 1, priv_stop_requested = True\<rparr>,
         \<lparr>priv_original_args = PyStr ''b'', priv_session = PyObj 1, priv_stop_requested = False\<rparr>]
      = Some (True,
        [\<lparr>priv_original_args = PyStr ''a'', priv_session = PyObj 1, priv_stop_requested = True\<rparr>,
         \<lparr>priv_original_args = PyStr ''b'', priv_session = PyObj 1, priv_stop_requested = False\<rparr>])"
proof -
  let ?A = "\<lparr>priv_original_args = PyStr ''a'', priv_session = PyObj 1, priv_stop_requested = False\<rparr>"
  let ?A' = "\<lparr>priv_original_args = PyStr ''a'', priv_session = PyObj 1, priv_stop_requested = True\<rparr>"
  let ?B = "\<lparr>priv_original_args = PyStr ''b'', priv_session = PyObj 1, priv_stop_requested = False\<rparr>"
  have st: "new_context (PyStr ''b'') (PyObj 1) (snd (new_context (PyStr ''a'') (PyObj 1) []))
            = (1, [?A, ?B])"
    by (simp add: new_context_def SessionRunContext_init_def)
  have ne: "(0::nat) \<noteq> 1" by simp
  have rd: "stop_requested_ref 1 [?A, ?B] = Some (False, [?A, ?B])"
    by (simp add: stop_requested_ref_def)
  have wr: "request_stop_ref 0 [?A, ?B] = Some ((), [?A', ?B])"
    by (simp add: request_stop_ref_def)
  from stop_flag_per_context [OF ne rd wr] st wr show ?thesis by simp
qed

text \<open>
  C10. Reading \<open>stop_requested\<close> leaves the context as it was; a second read returns what
  the first returned, and so does a read after any sequence of operations that has no
  \<open>request_stop()\<close> in it.
\<close>

theorem stop_requested_pure:
  "snd (stop_requested self) = self
   \<and> fst (stop_requested (snd (stop_requested self))) = fst (stop_requested self)
   \<and> (Do_request_stop \<notin> set cs \<longrightarrow>
        after_calls cs self = self
        \<and> fst (stop_requested (after_calls cs self)) = fst (stop_requested self))"
  using after_calls_reads_only [of cs self] by (simp add: stop_requested_def)

theorem stop_requested_pure_witness:
  "Do_request_stop \<notin> set [Get_stop_requested, Get_session, Get_stop_requested, Get_original_args]
   \<and> fst (stop_requested
        (after_calls [Get_stop_requested, Get_session, Get_stop_requested, Get_original_args]
           (snd (request_stop (SessionRunContext_init (PyStr ''step'') (PyObj 0))))))
     = True"
  using stop_requested_pure [of "snd (request_stop (SessionRunContext_init (PyStr ''step'') (PyObj 0)))"
      "[Get_stop_requested, Get_session, Get_stop_requested, Get_original_args]"]
  by (simp add: ctx_defs)

subsection \<open>The default callbacks\<close>

text \<open>
  C5. The callbacks of \<open>SessionRunHook\<close> itself: \<open>before_run\<close> returns \<open>None\<close> for every
  \<open>run_context\<close>; \<open>begin\<close>, \<open>after_run\<close> and \<open>end\<close> return nothing; each leaves the hook
  and every context of the store as it was.
\<close>

theorem default_hook_callbacks:
  "before_run hk run_context st = (None, hk, st)
   \<and> hook_begin hk st = ((), hk, st)
   \<and> after_run hk run_context' run_values st = ((), hk, st)
   \<and> hook_end hk session_arg st = ((), hk, st)"
  by (simp add: before_run_def hook_begin_def after_run_def hook_end_def)

end
